theory Spec2Isabelle
  imports Complex_Main "HOL-Library.Sublist"
begin

section \<open>Text primitives of the client\<close>

text \<open>
  The client of \<^verbatim>\<open>client.py\<close> works on decoded text. A text is a \<^typ>\<open>string\<close>, one
  \<^typ>\<open>char\<close> per code point (code points below 256). The Python built-ins the client calls
  on texts are written out here: \<^verbatim>\<open>str.split(sep)\<close>, \<^verbatim>\<open>str.split()\<close>,
  \<^verbatim>\<open>str.replace(',', '.')\<close> and the substring test \<^verbatim>\<open>a in b\<close>, which is
  \<^const>\<open>sublist\<close>.
\<close>

text \<open>
  Cutting a text at every character that satisfies \<open>P\<close>. The pieces between two cuts are
  kept also when they are empty, so a text with \<open>n\<close> cut points has \<open>n + 1\<close> pieces.
\<close>

fun split_at :: "(char \<Rightarrow> bool) \<Rightarrow> string \<Rightarrow> string list" where
  "split_at P [] = [[]]"
| "split_at P (c # cs) =
     (if P c then [] # split_at P cs
      else (case split_at P cs of
              [] \<Rightarrow> [[c]]
            | piece # pieces \<Rightarrow> (c # piece) # pieces))"

text \<open>\<^verbatim>\<open>s.split("\n")\<close>: the separator is the single line feed.\<close>

definition LF :: char where
  "LF = CHR 0x0A"

definition CR :: char where
  "CR = CHR 0x0D"

definition split_sep :: "char \<Rightarrow> string \<Rightarrow> string list" where
  "split_sep sep s = split_at (\<lambda>c. c = sep) s"

text \<open>
  \<^verbatim>\<open>s.split()\<close>: runs of whitespace separate the tokens, and no token is empty. The
  whitespace characters of Python below code point 256 are listed.
\<close>

definition is_space :: "char \<Rightarrow> bool" where
  "is_space c = (c \<in> set [CHR 0x20, CHR 0x09, CHR 0x0A, CHR 0x0D, CHR 0x0B, CHR 0x0C,
                          CHR 0x1C, CHR 0x1D, CHR 0x1E, CHR 0x1F, CHR 0x85, CHR 0xA0])"

definition split_ws :: "string \<Rightarrow> string list" where
  "split_ws s = filter (\<lambda>t. t \<noteq> []) (split_at is_space s)"

text \<open>\<^verbatim>\<open>t.replace(',', '.')\<close>: every comma becomes a period.\<close>

definition replace_comma :: "string \<Rightarrow> string" where
  "replace_comma t = map (\<lambda>c. if c = CHR '','' then CHR ''.'' else c) t"

section \<open>Errors\<close>

text \<open>
  The exceptions the client can meet: the read timeout of the socket, any other socket
  error, an index out of range, a text that \<^verbatim>\<open>float\<close> rejects and a name that a
  module does not define.
\<close>

datatype error = Timeout | OSError | IndexError | ValueError | AttributeError

text \<open>\<^verbatim>\<open>tokens[i]\<close> raises \<^verbatim>\<open>IndexError\<close> out of range.\<close>

definition index :: "'a list \<Rightarrow> nat \<Rightarrow> error + 'a" where
  "index xs i = (if i < length xs then Inr (xs ! i) else Inl IndexError)"

text \<open>
  \<^verbatim>\<open>float(t.replace(',', '.'))\<close>. The built-in \<^verbatim>\<open>float\<close> is a parameter \<open>flt\<close> of
  the model: it gives a number or rejects the text with \<^verbatim>\<open>ValueError\<close>.
\<close>

definition to_float :: "(string \<Rightarrow> 'f option) \<Rightarrow> string \<Rightarrow> error + 'f" where
  "to_float flt t = (case flt (replace_comma t) of None \<Rightarrow> Inl ValueError | Some v \<Rightarrow> Inr v)"

section \<open>The packet parser\<close>

text \<open>\<^verbatim>\<open>E4Client._split_response\<close>: \<^verbatim>\<open>response.split("\n")\<close>.\<close>

definition split_response :: "string \<Rightarrow> string list" where
  "split_response response = split_sep LF response"

text \<open>\<^verbatim>\<open>E4Client._is_data_packet\<close>.\<close>

definition is_data_packet :: "string \<Rightarrow> bool" where
  "is_data_packet packet =
     (if packet = [] then False
      else if hd packet = CHR ''R'' then False
      else True)"

text \<open>Sequencing of steps that may raise: the first error ends the computation.\<close>

definition and_then :: "error + 'a \<Rightarrow> ('a \<Rightarrow> error + 'b) \<Rightarrow> error + 'b" where
  "and_then r f = (case r of Inl e \<Rightarrow> Inl e | Inr x \<Rightarrow> f x)"

text \<open>\<^verbatim>\<open>float(tokens[i].replace(',', '.'))\<close>.\<close>

definition float_token :: "(string \<Rightarrow> 'f option) \<Rightarrow> string list \<Rightarrow> nat \<Rightarrow> error + 'f" where
  "float_token flt tokens i = and_then (index tokens i) (to_float flt)"

text \<open>
  The data of a packet is one number or, for the accelerometer, a tuple of three.
\<close>

datatype 'f payload = Scalar 'f | Vec3 'f 'f 'f

text \<open>\<^verbatim>\<open>E4Client._parse_packet\<close>. The result is \<^verbatim>\<open>(stream, timestamp, data)\<close>.\<close>

definition parse_packet ::
  "(string \<Rightarrow> 'f option) \<Rightarrow> string \<Rightarrow> error + (string \<times> 'f \<times> 'f payload)" where
  "parse_packet flt packet =
     (let tokens = split_ws packet in
      and_then (index tokens 0) (\<lambda>stream.
      and_then (float_token flt tokens 1) (\<lambda>timestamp.
      and_then
        (if stream = ''E4_Acc'' then
           and_then (float_token flt tokens 2) (\<lambda>x.
           and_then (float_token flt tokens 3) (\<lambda>y.
           and_then (float_token flt tokens 4) (\<lambda>z. Inr (Vec3 x y z))))
         else and_then (float_token flt tokens 2) (\<lambda>v. Inr (Scalar v)))
        (\<lambda>data. Inr (stream, timestamp, data)))))"

text \<open>
  \<^verbatim>\<open>E4Client._scan_for_tag\<close>: the first packet that contains the text \<^verbatim>\<open>E4_Tag\<close> ends
  the loop; \<^verbatim>\<open>None\<close> is returned when no packet does.
\<close>

fun scan_for_tag :: "(string \<Rightarrow> 'f option) \<Rightarrow> string list \<Rightarrow> error + 'f option" where
  "scan_for_tag flt [] = Inr None"
| "scan_for_tag flt (packet # packets) =
     (if sublist ''E4_Tag'' packet
      then and_then (float_token flt (split_ws packet) 1) (\<lambda>v. Inr (Some v))
      else scan_for_tag flt packets)"

text \<open>
  The list comprehension of \<^verbatim>\<open>get_data\<close> evaluates \<^verbatim>\<open>_parse_packet\<close> packet by packet
  and stops at the first one that raises.
\<close>

fun map_err :: "('a \<Rightarrow> error + 'b) \<Rightarrow> 'a list \<Rightarrow> error + 'b list" where
  "map_err f [] = Inr []"
| "map_err f (x # xs) =
     and_then (f x) (\<lambda>y. and_then (map_err f xs) (\<lambda>ys. Inr (y # ys)))"

text \<open>
  The line sequence a caller sees over successive reads: the parser splits every received
  chunk on its own and keeps nothing from one chunk to the next.
\<close>

definition split_chunks :: "string list \<Rightarrow> string list" where
  "split_chunks chunks = concat (map split_response chunks)"

section \<open>Decimal literals\<close>

text \<open>
  The value \<^verbatim>\<open>float\<close> gives to a plain decimal literal (an optional sign, digits, at most
  one period, at least one digit), as an exact rational. It serves as the instance of
  \<open>flt\<close> on concrete lines; exponents, \<^verbatim>\<open>inf\<close>, \<^verbatim>\<open>nan\<close> and the rounding to binary
  floating point are outside it.
\<close>

definition digit_val :: "char \<Rightarrow> nat option" where
  "digit_val c =
     (let i = length (takeWhile (\<lambda>d. d \<noteq> c) ''0123456789'')
      in if i < 10 then Some i else None)"

fun digits_val :: "nat \<Rightarrow> string \<Rightarrow> nat option" where
  "digits_val acc [] = Some acc"
| "digits_val acc (c # cs) =
     (case digit_val c of None \<Rightarrow> None | Some d \<Rightarrow> digits_val (10 * acc + d) cs)"

definition float_decimal :: "string \<Rightarrow> rat option" where
  "float_decimal t =
     (let (sign, body) =
            (case t of
               [] \<Rightarrow> (1, [])
             | c # cs \<Rightarrow> if c = CHR ''-'' then (- 1, cs)
                        else if c = CHR ''+'' then (1, cs) else (1, c # cs));
          ip = takeWhile (\<lambda>c. c \<noteq> CHR ''.'') body;
          fp = drop 1 (dropWhile (\<lambda>c. c \<noteq> CHR ''.'') body)
      in if ip = [] \<and> fp = [] then None
         else (case digits_val 0 (ip @ fp) of
                 None \<Rightarrow> None
               | Some n \<Rightarrow> Some (sign * of_nat n / 10 ^ length fp)))"

section \<open>The catalogue of commands and acknowledgements\<close>

text \<open>
  The wire texts of \<^verbatim>\<open>client.py\<close> and the templates of \<^verbatim>\<open>messages.py\<close>.
\<close>

definition COMMAND_PAUSE :: string where
  "COMMAND_PAUSE = ''pause ON'' @ [CR, LF]"

definition COMMAND_RESUME :: string where
  "COMMAND_RESUME = ''pause OFF'' @ [CR, LF]"

definition COMMAND_LIST :: string where
  "COMMAND_LIST = ''device_list'' @ [CR, LF]"

definition COMMAND_DEV_CONNECT :: "string \<Rightarrow> string" where
  "COMMAND_DEV_CONNECT device_id = ''device_connect '' @ device_id @ [CR, LF]"

definition DEV_ACK_OK :: string where
  "DEV_ACK_OK = ''R device_connect OK'' @ [LF]"

definition PAUSE_ON_ACK :: string where
  "PAUSE_ON_ACK = ''R pause ON'' @ [LF]"

definition DISCONNECT_MESSAGE :: string where
  "DISCONNECT_MESSAGE = ''connection lost to device''"

definition SEND_DISCONNECT :: string where
  "SEND_DISCONNECT = ''device_disconnect'' @ [CR, LF]"

definition SEND_SUBSCRIBE_L :: "string \<Rightarrow> string" where
  "SEND_SUBSCRIBE_L subscription = ''device_subscribe '' @ subscription @ '' ON'' @ [CR, LF]"

definition RECV_SUB_OK_L :: "string \<Rightarrow> string" where
  "RECV_SUB_OK_L subscription = ''R device_subscribe '' @ subscription @ '' OK'' @ [LF]"

text \<open>
  The client imports the module \<^verbatim>\<open>messages\<close> as \<^verbatim>\<open>msg\<close> and reaches for
  \<^verbatim>\<open>msg.SEND\<close> and \<^verbatim>\<open>msg.RECV\<close>. The module defines the names \<^verbatim>\<open>Enum\<close>,
  \<^verbatim>\<open>_Send\<close>, \<^verbatim>\<open>_Receive\<close> and \<^verbatim>\<open>Messages\<close> only (\<^verbatim>\<open>SEND\<close> and \<^verbatim>\<open>RECV\<close> are
  attributes of the class \<^verbatim>\<open>Messages\<close>): looking up any other name on it raises
  \<^verbatim>\<open>AttributeError\<close>.
\<close>

definition messages_attr :: "string \<Rightarrow> error + unit" where
  "messages_attr name =
     (if name \<in> set [''Enum'', ''_Send'', ''_Receive'', ''Messages''] then Inr ()
      else Inl AttributeError)"

section \<open>The client and its socket\<close>

text \<open>
  The socket is fresh (created, not connected), connected or closed. The server is a
  script: the list of what the successive \<^verbatim>\<open>recv\<close> calls yield, a decoded chunk of text
  or a read timeout; when the script is used up nothing arrives any more and every
  \<^verbatim>\<open>recv\<close> times out. The client records the socket calls it makes, in order, and the
  calls to \<^verbatim>\<open>logging\<close>, in order.
\<close>

datatype sock_state = Fresh | Connected | Closed

datatype event = Data string | TimedOut

datatype action = Connect | Send string | Shutdown | Close | NewSocket

datatype level = INFO | ERROR

text \<open>
  The fields of \<^verbatim>\<open>E4Client\<close> that its methods read or write. Address, port, buffer size
  and timeout only configure the socket. \<open>running\<close> is unset until \<^verbatim>\<open>run\<close> or
  \<^verbatim>\<open>pause\<close> assigns it.
\<close>

record session =
  device_id :: string
  subscriptions :: "string list"
  logger :: bool
  sock :: sock_state
  incoming :: "event list"
  trace :: "action list"
  logs :: "(level \<times> string) list"
  running :: "bool option"

type_synonym 'a io = "session \<Rightarrow> (error + 'a) \<times> session"

definition ok :: "'a \<Rightarrow> 'a io" where
  "ok x s = (Inr x, s)"

text \<open>Sequencing of two steps on the client: an exception of the first ends the method.\<close>

definition then_do :: "'a io \<Rightarrow> ('a \<Rightarrow> 'b io) \<Rightarrow> 'b io" where
  "then_do m f s = (case m s of (Inl e, s') \<Rightarrow> (Inl e, s') | (Inr x, s') \<Rightarrow> f x s')"

definition lift :: "error + 'a \<Rightarrow> 'a io" where
  "lift r s = (r, s)"

subsection \<open>Logging\<close>

text \<open>
  \<^verbatim>\<open>logging.info\<close> and \<^verbatim>\<open>logging.exception\<close> record a message and return; neither
  raises.
\<close>

definition log_info :: "string \<Rightarrow> unit io" where
  "log_info m s = (Inr (), s\<lparr>logs := logs s @ [(INFO, m)]\<rparr>)"

definition log_exception :: "string \<Rightarrow> unit io" where
  "log_exception m s = (Inr (), s\<lparr>logs := logs s @ [(ERROR, m)]\<rparr>)"

text \<open>\<^verbatim>\<open>if self.logger: self.logger.info(m)\<close>.\<close>

definition logger_info :: "string \<Rightarrow> unit io" where
  "logger_info m s = (if logger s then log_info m s else ok () s)"

subsection \<open>Socket calls\<close>

text \<open>
  \<^verbatim>\<open>send\<close>, \<^verbatim>\<open>recv\<close> and \<^verbatim>\<open>shutdown\<close> need a connected socket and raise
  \<^verbatim>\<open>OSError\<close> otherwise. \<^verbatim>\<open>connect\<close> connects a fresh socket and raises
  \<^verbatim>\<open>OSError\<close> on a closed one. What it does on a socket that is already connected is
  the platform's: it raises \<^verbatim>\<open>OSError\<close>, or (a socket with a timeout whose connection
  has just been made) it returns normally. The parameter \<open>again\<close> says whether it returns
  normally.
\<close>

definition sock_connect :: "bool \<Rightarrow> unit io" where
  "sock_connect again s =
     (case sock s of
        Fresh \<Rightarrow> (Inr (), s\<lparr>sock := Connected, trace := trace s @ [Connect]\<rparr>)
      | Connected \<Rightarrow>
          if again then (Inr (), s\<lparr>trace := trace s @ [Connect]\<rparr>) else (Inl OSError, s)
      | Closed \<Rightarrow> (Inl OSError, s))"

definition sock_send :: "string \<Rightarrow> unit io" where
  "sock_send d s =
     (if sock s = Connected then (Inr (), s\<lparr>trace := trace s @ [Send d]\<rparr>)
      else (Inl OSError, s))"

definition sock_recv :: "string io" where
  "sock_recv s =
     (if sock s \<noteq> Connected then (Inl OSError, s)
      else (case incoming s of
              [] \<Rightarrow> (Inl Timeout, s)
            | TimedOut # es \<Rightarrow> (Inl Timeout, s\<lparr>incoming := es\<rparr>)
            | Data d # es \<Rightarrow> (Inr d, s\<lparr>incoming := es\<rparr>)))"

definition sock_shutdown :: "unit io" where
  "sock_shutdown s =
     (if sock s = Connected then (Inr (), s\<lparr>trace := trace s @ [Shutdown]\<rparr>)
      else (Inl OSError, s))"

definition sock_close :: "unit io" where
  "sock_close s = (Inr (), s\<lparr>sock := Closed, trace := trace s @ [Close]\<rparr>)"

text \<open>\<^verbatim>\<open>self.s = socket.socket(...); self.s.settimeout(self.timeout)\<close>.\<close>

definition new_socket :: "unit io" where
  "new_socket s = (Inr (), s\<lparr>sock := Fresh, trace := trace s @ [NewSocket]\<rparr>)"

subsection \<open>The methods of \<^verbatim>\<open>E4Client\<close>\<close>

text \<open>\<^verbatim>\<open>E4Client._connect_device\<close>.\<close>

definition connect_device :: "unit io" where
  "connect_device s =
     then_do (log_info ''Querying for available devices.'') (\<lambda>_.
     then_do (sock_send COMMAND_LIST) (\<lambda>_.
     then_do sock_recv (\<lambda>response.
     then_do (if \<not> sublist (device_id s) response
              then log_exception (''Device ID '' @ device_id s @ '' not in available devices.'')
              else ok ()) (\<lambda>_.
     then_do (log_info ''Connecting to device'') (\<lambda>_.
     then_do (sock_send (COMMAND_DEV_CONNECT (device_id s))) (\<lambda>_.
     then_do sock_recv (\<lambda>response.
     then_do (if response \<noteq> DEV_ACK_OK
              then log_exception (''Could not subscribe to device '' @ device_id s)
              else ok ()) (\<lambda>_.
     log_info ''Device connected.'')))))))) s"

text \<open>\<^verbatim>\<open>E4Client._pause_stream\<close>.\<close>

definition pause_stream :: "unit io" where
  "pause_stream =
     then_do (log_info ''Pausing data stream...'') (\<lambda>_.
     then_do (sock_send COMMAND_PAUSE) (\<lambda>_.
     then_do sock_recv (\<lambda>response.
     then_do (if response \<noteq> PAUSE_ON_ACK
              then log_exception ''Could not pause stream.''
              else ok ()) (\<lambda>_.
     log_info ''Stream paused.''))))"

text \<open>\<^verbatim>\<open>E4Client._resume_stream\<close>: the reply is read and not looked at.\<close>

definition resume_stream :: "unit io" where
  "resume_stream =
     then_do (log_info ''Resuming data stream...'') (\<lambda>_.
     then_do (sock_send COMMAND_RESUME) (\<lambda>_.
     then_do sock_recv (\<lambda>response. ok ())))"

text \<open>
  \<^verbatim>\<open>E4Client.subscribe\<close>. The argument of \<^verbatim>\<open>send\<close> is evaluated first, and it
  begins with the lookup of \<^verbatim>\<open>msg.SEND\<close>; the comparison of the reply begins with the
  lookup of \<^verbatim>\<open>msg.RECV\<close>.
\<close>

definition subscribe :: "string \<Rightarrow> unit io" where
  "subscribe subscription =
     then_do (log_info (''Suscribing to '' @ subscription @ ''...'')) (\<lambda>_.
     then_do (lift (messages_attr ''SEND'')) (\<lambda>_.
     then_do (sock_send (SEND_SUBSCRIBE_L subscription)) (\<lambda>_.
     then_do sock_recv (\<lambda>response.
     then_do (lift (messages_attr ''RECV'')) (\<lambda>_.
     then_do (if response \<noteq> RECV_SUB_OK_L subscription
              then log_exception (''Could not subscripe to type '' @ subscription)
              else ok ()) (\<lambda>_.
     log_info ''Subscribed successfully.''))))))"

text \<open>\<^verbatim>\<open>for sub in self.subscriptions: self.subscribe(sub)\<close>.\<close>

fun subscribe_each :: "string list \<Rightarrow> unit io" where
  "subscribe_each [] = ok ()"
| "subscribe_each (sub # subs) = then_do (subscribe sub) (\<lambda>_. subscribe_each subs)"

text \<open>\<^verbatim>\<open>E4Client.connect\<close>.\<close>

definition connect :: "bool \<Rightarrow> unit io" where
  "connect again s =
     then_do (logger_info ''Connecting to server...'') (\<lambda>_.
     then_do (sock_connect again) (\<lambda>_.
     then_do connect_device (\<lambda>_.
     then_do (logger_info ''Connected.'') (\<lambda>_.
     then_do pause_stream (\<lambda>_.
     subscribe_each (subscriptions s)))))) s"

text \<open>\<^verbatim>\<open>E4Client.reset\<close>.\<close>

definition reset :: "bool \<Rightarrow> unit io" where
  "reset again =
     then_do (logger_info ''Resetting socket'') (\<lambda>_.
     then_do sock_shutdown (\<lambda>_.
     then_do sock_close (\<lambda>_.
     then_do new_socket (\<lambda>_.
     connect again))))"

text \<open>\<^verbatim>\<open>E4Client.reconnect\<close>.\<close>

definition reconnect :: "bool \<Rightarrow> unit io" where
  "reconnect again = then_do (reset again) (\<lambda>_. connect again)"

text \<open>\<^verbatim>\<open>E4Client.run\<close> and \<^verbatim>\<open>E4Client.pause\<close>.\<close>

definition run :: "unit io" where
  "run = then_do resume_stream (\<lambda>_ s. (Inr (), s\<lparr>running := Some True\<rparr>))"

definition pause :: "unit io" where
  "pause = then_do pause_stream (\<lambda>_ s. (Inr (), s\<lparr>running := Some False\<rparr>))"

text \<open>
  \<^verbatim>\<open>E4Client.disconnect\<close>. The argument of \<^verbatim>\<open>send\<close> begins with the lookup of
  \<^verbatim>\<open>msg.SEND\<close>.
\<close>

definition disconnect :: "unit io" where
  "disconnect =
     then_do (log_info ''Disconnecting...'') (\<lambda>_.
     then_do (lift (messages_attr ''SEND'')) (\<lambda>_.
     then_do (sock_send SEND_DISCONNECT) (\<lambda>_.
     then_do sock_shutdown (\<lambda>_.
     then_do sock_close (\<lambda>_.
     log_info ''Disconnected.'')))))"

text \<open>\<^verbatim>\<open>E4Client._receive\<close>.\<close>

definition receive :: "string io" where
  "receive = sock_recv"

text \<open>\<^verbatim>\<open>E4Client.get_data\<close>.\<close>

definition get_data ::
  "(string \<Rightarrow> 'f option) \<Rightarrow> (string \<times> 'f \<times> 'f payload) list io" where
  "get_data flt s =
     then_do sock_recv (\<lambda>response.
     then_do (if sublist DISCONNECT_MESSAGE response
              then log_exception (''Lost connection to device '' @ device_id s @ ''.'')
              else ok ()) (\<lambda>_.
     lift (map_err (parse_packet flt) (filter is_data_packet (split_response response))))) s"

text \<open>
  \<^verbatim>\<open>E4Client.poll_for_tag\<close>. The loop \<^verbatim>\<open>while True\<close> has no bound: the result is
  \<open>None\<close> when it never ends. Only the read timeout is caught; any other exception
  leaves the method.
\<close>

partial_function (option) poll_loop ::
  "(string \<Rightarrow> 'f option) \<Rightarrow> session \<Rightarrow> ((error + 'f) \<times> session) option" where
  "poll_loop flt s =
     (case receive s of
        (Inl e, s1) \<Rightarrow>
          if e = Timeout
          then poll_loop flt
                 (snd (log_info ''Timed out waiting for tag. Resuming polling...'' s1))
          else Some (Inl e, s1)
      | (Inr response, s1) \<Rightarrow>
          (case scan_for_tag flt (split_response response) of
             Inl e \<Rightarrow> Some (Inl e, s1)
           | Inr None \<Rightarrow> poll_loop flt s1
           | Inr (Some tag_timestamp) \<Rightarrow> Some (Inr tag_timestamp, s1)))"

declare poll_loop.simps [code]

definition poll_for_tag ::
  "(string \<Rightarrow> 'f option) \<Rightarrow> session \<Rightarrow> ((error + 'f) \<times> session) option" where
  "poll_for_tag flt s = poll_loop flt (snd (log_info ''Polling for tag...'' s))"

subsection \<open>The reconnection the specification describes\<close>

text \<open>
  In the specification's words, \<^verbatim>\<open>disconnect()\<close> sends the disconnect command, then
  closes the transport in both directions whether or not the send succeeded, and raises
  nothing; \<^verbatim>\<open>reconnect()\<close> is that, followed by a fresh \<^verbatim>\<open>connect()\<close> (on a new
  socket) with the same device id and subscriptions.
\<close>

definition spec_disconnect :: "session \<Rightarrow> session" where
  "spec_disconnect s =
     snd (sock_close (snd (sock_shutdown (snd (sock_send SEND_DISCONNECT s)))))"

definition spec_reconnect :: "bool \<Rightarrow> unit io" where
  "spec_reconnect again s = then_do new_socket (\<lambda>_. connect again) (spec_disconnect s)"

section \<open>Clients and server scripts of the examples\<close>

text \<open>
  A client of a device with its subscriptions, its socket in a given state, in front of a
  server script, before it has made any call.
\<close>

definition client :: "string \<Rightarrow> string list \<Rightarrow> sock_state \<Rightarrow> event list \<Rightarrow> session" where
  "client dev subs st script =
     \<lparr>device_id = dev, subscriptions = subs, logger = True, sock = st, incoming = script,
      trace = [], logs = [], running = None\<rparr>"

text \<open>
  A read that leaves the tag poll waiting: a timeout, or a chunk none of whose lines
  contains the text \<^verbatim>\<open>E4_Tag\<close>.
\<close>

fun no_tag :: "event \<Rightarrow> bool" where
  "no_tag TimedOut = True"
| "no_tag (Data chunk) = (\<not> list_ex (sublist ''E4_Tag'') (split_response chunk))"

text \<open>
  What a method has done when it returns normally: the socket is in state \<open>st\<close>, the
  script that is left is \<open>es\<close>, the socket calls \<open>acts\<close> were added to the record of calls,
  and the configuration of the client is as before. The log is left open.
\<close>

definition stepped ::
  "session \<Rightarrow> sock_state \<Rightarrow> event list \<Rightarrow> action list \<Rightarrow> (error + unit) \<times> session \<Rightarrow> bool" where
  "stepped s st es acts r =
     (fst r = Inr () \<and> sock (snd r) = st \<and> incoming (snd r) = es \<and>
      trace (snd r) = trace s @ acts \<and> device_id (snd r) = device_id s \<and>
      subscriptions (snd r) = subscriptions s \<and> logger (snd r) = logger s)"

text \<open>
  What a method has done at least, however it ends: it has added socket calls to the
  record of calls, none of them the sending of the disconnect command, and the
  configuration of the client is as before.
\<close>

definition adds :: "session \<Rightarrow> (error + 'a) \<times> session \<Rightarrow> bool" where
  "adds s r =
     ((\<exists>acts. trace (snd r) = trace s @ acts \<and> Send SEND_DISCONNECT \<notin> set acts) \<and>
      device_id (snd r) = device_id s \<and> subscriptions (snd r) = subscriptions s \<and>
      logger (snd r) = logger s)"

section \<open>Splitting a stream of chunks into lines\<close>

lemma split_at_ne [simp]: "split_at P s \<noteq> []"
  by (induction s) (auto split: list.splits)

lemma split_at_cut: "P c \<Longrightarrow> split_at P (a @ c # b) = split_at P a @ split_at P b"
  by (induction a) (auto split: list.splits)

lemma split_at_cut_last: "P c \<Longrightarrow> split_at P (a @ [c]) = split_at P a @ [[]]"
  using split_at_cut [of P c a "[]"] by simp

lemma split_response_cut:
  "split_response (a @ LF # b) = split_response a @ split_response b"
  by (simp add: split_response_def split_sep_def split_at_cut)

lemma split_response_cut_last: "split_response (a @ [LF]) = split_response a @ [[]]"
  by (simp add: split_response_def split_sep_def split_at_cut_last)

lemma split_response_Nil: "split_response [] = [[]]"
  by (simp add: split_response_def split_sep_def)

text \<open>
  Claim C1, as the code has it. The parser keeps no text from one chunk to the next:
  every chunk is split on its own. When every chunk but the last is empty or ends with a
  line feed, so that no line is cut by a chunk boundary, the non-empty lines of the chunks
  fed one at a time are the non-empty lines of the whole buffer, in the same order.
\<close>

theorem split_chunks_on_line_boundaries:
  assumes "\<forall>c\<in>set (butlast chunks). c = [] \<or> last c = LF"
  shows "filter (\<lambda>l. l \<noteq> []) (split_chunks chunks) =
         filter (\<lambda>l. l \<noteq> []) (split_response (concat chunks))"
  using assms
proof (induction chunks)
  case Nil
  show ?case by (simp add: split_chunks_def split_response_Nil)
next
  case (Cons c cs)
  show ?case
  proof (cases "cs = []")
    case True
    then show ?thesis by (simp add: split_chunks_def)
  next
    case False
    with Cons.prems have c: "c = [] \<or> last c = LF"
      and rest: "\<forall>c\<in>set (butlast cs). c = [] \<or> last c = LF"
      by auto
    have IH: "filter (\<lambda>l. l \<noteq> []) (split_chunks cs) =
              filter (\<lambda>l. l \<noteq> []) (split_response (concat cs))"
      using Cons.IH rest by simp
    show ?thesis
    proof (cases "c = []")
      case True
      then show ?thesis using IH by (simp add: split_chunks_def split_response_Nil)
    next
      case False
      with c obtain a where a: "c = a @ [LF]"
        by (metis append_butlast_last_id)
      have whole: "split_response (c @ concat cs) =
                   split_response a @ split_response (concat cs)"
        by (simp add: a split_response_cut)
      have one: "split_response c = split_response a @ [[]]"
        by (simp add: a split_response_cut_last)
      show ?thesis using IH by (simp add: split_chunks_def whole one)
    qed
  qed
qed

theorem split_chunks_on_line_boundaries_witness:
  "filter (\<lambda>l. l \<noteq> []) (split_chunks [''E4_Bvp 1,0 2,0'' @ [LF], ''E4_Bvp 1,1 2,1'']) =
   filter (\<lambda>l. l \<noteq> [])
     (split_response (concat [''E4_Bvp 1,0 2,0'' @ [LF], ''E4_Bvp 1,1 2,1'']))"
  by (rule split_chunks_on_line_boundaries) simp

text \<open>
  Claim C1, as it is stated, fails: a line cut by a chunk boundary comes out as two lines,
  also when the empty lines are left out.
\<close>

theorem split_chunks_boundary_counterexample:
  "split_chunks [''E4_Bvp 1,0 '', ''2,0'' @ [LF]] \<noteq>
   split_response (concat [''E4_Bvp 1,0 '', ''2,0'' @ [LF]]) \<and>
   filter (\<lambda>l. l \<noteq> []) (split_chunks [''E4_Bvp 1,0 '', ''2,0'' @ [LF]]) \<noteq>
   filter (\<lambda>l. l \<noteq> []) (split_response (concat [''E4_Bvp 1,0 '', ''2,0'' @ [LF]]))"
  by (simp add: split_chunks_def split_response_def split_sep_def LF_def)

section \<open>Decoding a data line\<close>

lemma and_then_simps [simp]:
  "and_then (Inl e) f = Inl e"
  "and_then (Inr x) f = f x"
  by (simp_all add: and_then_def)

lemma to_float_cases: "to_float flt t = Inl ValueError \<or> (\<exists>v. to_float flt t = Inr v)"
  by (simp add: to_float_def split: option.splits)

lemma float_token_short: "length ts \<le> i \<Longrightarrow> float_token flt ts i = Inl IndexError"
  by (simp add: float_token_def index_def)

lemma float_token_cases:
  "float_token flt ts i = Inl IndexError \<or> float_token flt ts i = Inl ValueError \<or>
   (\<exists>v. float_token flt ts i = Inr v)"
  using to_float_cases [of flt "ts ! i"]
  by (auto simp: float_token_def index_def)

lemma float_token_Cons:
  assumes eq: "map replace_comma ts1 = map replace_comma ts2"
  shows "float_token flt (c # ts1) (Suc i) = float_token flt (c # ts2) (Suc i)"
proof -
  from eq have len: "length ts1 = length ts2" by (rule map_eq_imp_length_eq)
  show ?thesis
  proof (cases "i < length ts1")
    case True
    with eq len have "replace_comma (ts1 ! i) = replace_comma (ts2 ! i)"
      by (metis nth_map)
    with True len show ?thesis
      by (simp add: float_token_def index_def to_float_def)
  next
    case False
    with len show ?thesis by (simp add: float_token_def index_def)
  qed
qed

text \<open>
  Claim C5. The tokens after the stream code are the timestamp and the payload. A line
  of the accelerometer with fewer than three payload tokens (fewer than four tokens after
  the code) raises, \<^verbatim>\<open>IndexError\<close> for the missing token or \<^verbatim>\<open>ValueError\<close> for an
  earlier token that is not a number; with exactly three numeric payload tokens the data
  is the triple of their values. A line of another stream with no payload token raises in
  the same way, and with a numeric first payload token the data is that one value.
\<close>

theorem parse_packet_arity:
  "(split_ws packet = ''E4_Acc'' # rest \<and> length rest < 4 \<longrightarrow>
      parse_packet flt packet \<in> {Inl IndexError, Inl ValueError}) \<and>
   (split_ws packet = [''E4_Acc'', t, a, b, c] \<and> flt (replace_comma t) = Some ts \<and>
    flt (replace_comma a) = Some x \<and> flt (replace_comma b) = Some y \<and>
    flt (replace_comma c) = Some z \<longrightarrow>
      parse_packet flt packet = Inr (''E4_Acc'', ts, Vec3 x y z)) \<and>
   (split_ws packet = code # rest \<and> code \<noteq> ''E4_Acc'' \<and> length rest < 2 \<longrightarrow>
      parse_packet flt packet \<in> {Inl IndexError, Inl ValueError}) \<and>
   (split_ws packet = code # t # a # extra \<and> code \<noteq> ''E4_Acc'' \<and>
    flt (replace_comma t) = Some ts \<and> flt (replace_comma a) = Some x \<longrightarrow>
      parse_packet flt packet = Inr (code, ts, Scalar x))"
proof (intro conjI impI)
  assume h: "split_ws packet = ''E4_Acc'' # rest \<and> length rest < 4"
  let ?tk = "''E4_Acc'' # rest"
  have last: "float_token flt ?tk 4 = Inl IndexError"
    using h by (simp add: float_token_short)
  from float_token_cases [of flt ?tk 1] float_token_cases [of flt ?tk 2]
    float_token_cases [of flt ?tk 3] last
  show "parse_packet flt packet \<in> {Inl IndexError, Inl ValueError}"
    unfolding parse_packet_def Let_def using h
    by (auto simp: index_def)
next
  assume "split_ws packet = [''E4_Acc'', t, a, b, c] \<and> flt (replace_comma t) = Some ts \<and>
    flt (replace_comma a) = Some x \<and> flt (replace_comma b) = Some y \<and>
    flt (replace_comma c) = Some z"
  then show "parse_packet flt packet = Inr (''E4_Acc'', ts, Vec3 x y z)"
    by (simp add: parse_packet_def Let_def index_def float_token_def to_float_def
        eval_nat_numeral)
next
  assume h: "split_ws packet = code # rest \<and> code \<noteq> ''E4_Acc'' \<and> length rest < 2"
  let ?tk = "code # rest"
  have last: "float_token flt ?tk 2 = Inl IndexError"
    using h by (simp add: float_token_short)
  from float_token_cases [of flt ?tk 1] last
  show "parse_packet flt packet \<in> {Inl IndexError, Inl ValueError}"
    unfolding parse_packet_def Let_def using h
    by (auto simp: index_def)
next
  assume "split_ws packet = code # t # a # extra \<and> code \<noteq> ''E4_Acc'' \<and>
    flt (replace_comma t) = Some ts \<and> flt (replace_comma a) = Some x"
  then show "parse_packet flt packet = Inr (code, ts, Scalar x)"
    by (simp add: parse_packet_def Let_def index_def float_token_def to_float_def
        eval_nat_numeral)
qed

theorem parse_packet_arity_witness:
  "parse_packet float_decimal ''E4_Acc 1,5 2,0 3,0'' \<in> {Inl IndexError, Inl ValueError} \<and>
   parse_packet float_decimal ''E4_Acc 1,5 2,0 3,0 4,0'' = Inr (''E4_Acc'', 3 / 2, Vec3 2 3 4) \<and>
   parse_packet float_decimal ''E4_Bvp 1,5'' \<in> {Inl IndexError, Inl ValueError} \<and>
   parse_packet float_decimal ''E4_Bvp 1,5 2,5'' = Inr (''E4_Bvp'', 3 / 2, Scalar (5 / 2))"
proof -
  have t1: "split_ws ''E4_Acc 1,5 2,0 3,0'' = ''E4_Acc'' # [''1,5'', ''2,0'', ''3,0'']"
    by code_simp
  have t2: "split_ws ''E4_Acc 1,5 2,0 3,0 4,0'' = [''E4_Acc'', ''1,5'', ''2,0'', ''3,0'', ''4,0'']"
    by code_simp
  have t3: "split_ws ''E4_Bvp 1,5'' = ''E4_Bvp'' # [''1,5'']"
    by code_simp
  have t4: "split_ws ''E4_Bvp 1,5 2,5'' = ''E4_Bvp'' # ''1,5'' # ''2,5'' # []"
    by code_simp
  have f1: "float_decimal (replace_comma ''1,5'') = Some (3 / 2)" by code_simp
  have f2: "float_decimal (replace_comma ''2,0'') = Some 2" by code_simp
  have f3: "float_decimal (replace_comma ''3,0'') = Some 3" by code_simp
  have f4: "float_decimal (replace_comma ''4,0'') = Some 4" by code_simp
  have f5: "float_decimal (replace_comma ''2,5'') = Some (5 / 2)" by code_simp
  have "parse_packet float_decimal ''E4_Acc 1,5 2,0 3,0'' \<in> {Inl IndexError, Inl ValueError}"
    using parse_packet_arity [where packet = "''E4_Acc 1,5 2,0 3,0''"
        and rest = "[''1,5'', ''2,0'', ''3,0'']" and flt = float_decimal] t1
    by simp
  moreover
  have "parse_packet float_decimal ''E4_Acc 1,5 2,0 3,0 4,0'' =
        Inr (''E4_Acc'', 3 / 2, Vec3 2 3 4)"
    using parse_packet_arity [where packet = "''E4_Acc 1,5 2,0 3,0 4,0''"
        and t = "''1,5''" and a = "''2,0''" and b = "''3,0''" and c = "''4,0''"
        and flt = float_decimal and ts = "3 / 2" and x = 2 and y = 3 and z = 4]
      t2 f1 f2 f3 f4
    by simp
  moreover
  have "parse_packet float_decimal ''E4_Bvp 1,5'' \<in> {Inl IndexError, Inl ValueError}"
    using parse_packet_arity [where packet = "''E4_Bvp 1,5''" and code = "''E4_Bvp''"
        and rest = "[''1,5'']" and flt = float_decimal] t3
    by simp
  moreover
  have "parse_packet float_decimal ''E4_Bvp 1,5 2,5'' = Inr (''E4_Bvp'', 3 / 2, Scalar (5 / 2))"
    using parse_packet_arity [where packet = "''E4_Bvp 1,5 2,5''" and code = "''E4_Bvp''"
        and t = "''1,5''" and a = "''2,5''" and extra = "[]"
        and flt = float_decimal and ts = "3 / 2" and x = "5 / 2"]
      t4 f1 f5
    by simp
  ultimately show ?thesis by blast
qed

text \<open>
  Claim C6. Two lines with the same stream code whose further tokens differ only in the
  decimal separator (they are equal once every comma is a period) decode to the same
  result: the same stream code, timestamp and payload values.
\<close>

theorem parse_packet_separator:
  assumes "split_ws l1 = code # ts1" and "split_ws l2 = code # ts2"
    and "map replace_comma ts1 = map replace_comma ts2"
  shows "parse_packet flt l1 = parse_packet flt l2"
proof -
  have f0: "index (code # ts1) 0 = index (code # ts2) 0"
    by (simp add: index_def)
  have f1: "float_token flt (code # ts1) 1 = float_token flt (code # ts2) 1"
    using float_token_Cons [OF assms(3), of flt code 0] by simp
  have f2: "float_token flt (code # ts1) 2 = float_token flt (code # ts2) 2"
    using float_token_Cons [OF assms(3), of flt code 1] by (simp add: eval_nat_numeral)
  have f3: "float_token flt (code # ts1) 3 = float_token flt (code # ts2) 3"
    using float_token_Cons [OF assms(3), of flt code 2] by (simp add: eval_nat_numeral)
  have f4: "float_token flt (code # ts1) 4 = float_token flt (code # ts2) 4"
    using float_token_Cons [OF assms(3), of flt code 3] by (simp add: eval_nat_numeral)
  show ?thesis
    unfolding parse_packet_def Let_def assms(1,2) f0 f1 f2 f3 f4 by (rule refl)
qed

theorem parse_packet_separator_witness:
  "parse_packet float_decimal ''E4_Acc 1,5 -2,0 3,25 64,0'' =
   parse_packet float_decimal ''E4_Acc 1.5 -2.0 3.25 64.0'' \<and>
   parse_packet float_decimal ''E4_Acc 1.5 -2.0 3.25 64.0'' =
   Inr (''E4_Acc'', 3 / 2, Vec3 (- 2) (13 / 4) 64)"
proof -
  have t1: "split_ws ''E4_Acc 1,5 -2,0 3,25 64,0'' =
            ''E4_Acc'' # [''1,5'', ''-2,0'', ''3,25'', ''64,0'']"
    by code_simp
  have t2: "split_ws ''E4_Acc 1.5 -2.0 3.25 64.0'' =
            ''E4_Acc'' # [''1.5'', ''-2.0'', ''3.25'', ''64.0'']"
    by code_simp
  have n: "map replace_comma [''1,5'', ''-2,0'', ''3,25'', ''64,0''] =
           map replace_comma [''1.5'', ''-2.0'', ''3.25'', ''64.0'']"
    by code_simp
  have v: "parse_packet float_decimal ''E4_Acc 1.5 -2.0 3.25 64.0'' =
           Inr (''E4_Acc'', 3 / 2, Vec3 (- 2) (13 / 4) 64)"
    by code_simp
  show ?thesis
    using parse_packet_separator [OF t1 t2 n, of float_decimal] v by simp
qed

section \<open>Acknowledgements and data lines\<close>

text \<open>
  Claim C7. A line counts as data exactly when it is not empty and its first character is
  not \<^verbatim>\<open>R\<close>; \<^verbatim>\<open>get_data\<close> decodes exactly these lines of the chunk it reads, in
  order: a line that begins with \<^verbatim>\<open>R\<close> and an empty line are dropped before decoding.
\<close>

theorem get_data_skips_acknowledgements:
  assumes "sock s = Connected" and "incoming s = Data response # rest"
  shows "(is_data_packet p \<longleftrightarrow> p \<noteq> [] \<and> hd p \<noteq> CHR ''R'') \<and>
     fst (get_data flt s) =
       map_err (parse_packet flt)
         (filter (\<lambda>l. l \<noteq> [] \<and> hd l \<noteq> CHR ''R'') (split_response response))"
proof -
  have cls: "is_data_packet = (\<lambda>l. l \<noteq> [] \<and> hd l \<noteq> CHR ''R'')"
    by (rule ext) (simp add: is_data_packet_def)
  show ?thesis using assms
    by (simp add: cls get_data_def then_do_def sock_recv_def log_exception_def ok_def lift_def)
qed

theorem get_data_skips_acknowledgements_witness:
  "\<not> is_data_packet ''R pause ON'' \<and> \<not> is_data_packet [] \<and>
   fst (get_data float_decimal
     (client ''9ff167'' [''bvp''] Connected
        [Data (''R pause ON'' @ [LF] @ [LF] @ ''E4_Bvp 1,5 2,5'' @ [LF])])) =
   Inr [(''E4_Bvp'', 3 / 2, Scalar (5 / 2))]"
proof -
  let ?r = "''R pause ON'' @ [LF] @ [LF] @ ''E4_Bvp 1,5 2,5'' @ [LF]"
  let ?s = "client ''9ff167'' [''bvp''] Connected [Data ?r]"
  have c: "sock ?s = Connected" by (simp add: client_def)
  have i: "incoming ?s = Data ?r # []" by (simp add: client_def)
  have v: "map_err (parse_packet float_decimal)
             (filter (\<lambda>l. l \<noteq> [] \<and> hd l \<noteq> CHR ''R'') (split_response ?r)) =
           Inr [(''E4_Bvp'', 3 / 2, Scalar (5 / 2))]"
    by code_simp
  from get_data_skips_acknowledgements [OF c i, of "''R pause ON''" float_decimal]
    get_data_skips_acknowledgements [OF c i, of "[]" float_decimal] v
  show ?thesis by simp
qed

section \<open>Scanning for the tag\<close>

text \<open>
  Claim C10. The scan stops at the first line that contains the text \<^verbatim>\<open>E4_Tag\<close>
  anywhere, whatever its first token is, and returns the second whitespace token of that
  line read as a number after the commas are replaced by periods; a line with fewer than
  two tokens raises \<^verbatim>\<open>IndexError\<close>, a second token that is no number raises
  \<^verbatim>\<open>ValueError\<close>, and the result is \<^verbatim>\<open>None\<close> when no line contains the text.
\<close>

theorem scan_for_tag_substring:
  "scan_for_tag flt packets =
     (case find (sublist ''E4_Tag'') packets of
        None \<Rightarrow> Inr None
      | Some p \<Rightarrow>
          (case split_ws p of
             t0 # t1 # ts \<Rightarrow>
               (case flt (replace_comma t1) of
                  None \<Rightarrow> Inl ValueError
                | Some v \<Rightarrow> Inr (Some v))
           | _ \<Rightarrow> Inl IndexError))"
proof (induction packets)
  case Nil
  show ?case by simp
next
  case (Cons p ps)
  show ?case
  proof (cases "sublist ''E4_Tag'' p")
    case True
    then show ?thesis
      by (simp add: float_token_def index_def and_then_def to_float_def
          split: list.splits option.splits)
  next
    case False
    with Cons.IH show ?thesis by simp
  qed
qed

theorem scan_for_tag_substring_witness:
  "scan_for_tag float_decimal [''E4_Bvp 1,0 2,0'', ''R 7,5 E4_Tag'', ''E4_Tag 12,50''] =
   Inr (Some (15 / 2))"
proof -
  have v: "(case find (sublist ''E4_Tag'')
                   [''E4_Bvp 1,0 2,0'', ''R 7,5 E4_Tag'', ''E4_Tag 12,50''] of
        None \<Rightarrow> Inr None
      | Some p \<Rightarrow>
          (case split_ws p of
             t0 # t1 # ts \<Rightarrow>
               (case float_decimal (replace_comma t1) of
                  None \<Rightarrow> Inl ValueError
                | Some v \<Rightarrow> Inr (Some v))
           | _ \<Rightarrow> Inl IndexError)) = Inr (Some (15 / 2))"
    by code_simp
  show ?thesis
    by (subst scan_for_tag_substring) (rule v)
qed

section \<open>Acknowledgement checks that log and go on\<close>

text \<open>
  Claim C2, on the code. \<^verbatim>\<open>subscribe("BVP")\<close> logs that it subscribes and then raises
  \<^verbatim>\<open>AttributeError\<close> at the lookup of \<^verbatim>\<open>msg.SEND\<close>: the command is not sent and the
  reply is not read, whether the reply waiting on the socket is
  \<^verbatim>\<open>R device_subscribe BVP FAIL\<close> or the expected \<^verbatim>\<open>R device_subscribe BVP OK\<close>. The
  error the caller gets is the same in both cases and says nothing of an acknowledgement.
\<close>

theorem subscribe_raises_before_sending:
  "subscribe ''BVP''
     (client ''Device123'' [''BVP''] Connected [Data (''R device_subscribe BVP FAIL'' @ [LF])]) =
   (Inl AttributeError,
    \<lparr>device_id = ''Device123'', subscriptions = [''BVP''], logger = True, sock = Connected,
     incoming = [Data (''R device_subscribe BVP FAIL'' @ [LF])],
     trace = [],
     logs = [(INFO, ''Suscribing to BVP...'')],
     running = None\<rparr>) \<and>
   subscribe ''BVP''
     (client ''Device123'' [''BVP''] Connected [Data (''R device_subscribe BVP OK'' @ [LF])]) =
   (Inl AttributeError,
    \<lparr>device_id = ''Device123'', subscriptions = [''BVP''], logger = True, sock = Connected,
     incoming = [Data (''R device_subscribe BVP OK'' @ [LF])],
     trace = [],
     logs = [(INFO, ''Suscribing to BVP...'')],
     running = None\<rparr>)"
  by code_simp

text \<open>
  Claim C3, on the code. The enumeration \<^verbatim>\<open>R device_list 0\<close> does not contain the device
  id. The client records it with \<^verbatim>\<open>logging.exception\<close> and goes on: it sends
  \<^verbatim>\<open>device_connect\<close> and \<^verbatim>\<open>pause ON\<close> on the connected socket. With no subscription,
  \<^verbatim>\<open>connect\<close> then returns normally; with the subscription \<^verbatim>\<open>ACC\<close> it ends with the
  \<^verbatim>\<open>AttributeError\<close> of \<^verbatim>\<open>subscribe\<close>, after the same commands.
\<close>

theorem connect_unknown_device_goes_on:
  "connect again
     (client ''Device123'' [] Fresh
        [Data (''R device_list 0'' @ [LF]), Data DEV_ACK_OK, Data PAUSE_ON_ACK]) =
   (Inr (),
    \<lparr>device_id = ''Device123'', subscriptions = [], logger = True, sock = Connected,
     incoming = [],
     trace = [Connect, Send (''device_list'' @ [CR, LF]),
              Send (''device_connect Device123'' @ [CR, LF]),
              Send (''pause ON'' @ [CR, LF])],
     logs = [(INFO, ''Connecting to server...''),
             (INFO, ''Querying for available devices.''),
             (ERROR, ''Device ID Device123 not in available devices.''),
             (INFO, ''Connecting to device''), (INFO, ''Device connected.''),
             (INFO, ''Connected.''), (INFO, ''Pausing data stream...''),
             (INFO, ''Stream paused.'')],
     running = None\<rparr>) \<and>
   connect again
     (client ''Device123'' [''ACC''] Fresh
        [Data (''R device_list 0'' @ [LF]), Data DEV_ACK_OK, Data PAUSE_ON_ACK,
         Data (RECV_SUB_OK_L ''ACC'')]) =
   (Inl AttributeError,
    \<lparr>device_id = ''Device123'', subscriptions = [''ACC''], logger = True, sock = Connected,
     incoming = [Data (RECV_SUB_OK_L ''ACC'')],
     trace = [Connect, Send (''device_list'' @ [CR, LF]),
              Send (''device_connect Device123'' @ [CR, LF]),
              Send (''pause ON'' @ [CR, LF])],
     logs = [(INFO, ''Connecting to server...''),
             (INFO, ''Querying for available devices.''),
             (ERROR, ''Device ID Device123 not in available devices.''),
             (INFO, ''Connecting to device''), (INFO, ''Device connected.''),
             (INFO, ''Connected.''), (INFO, ''Pausing data stream...''),
             (INFO, ''Stream paused.''), (INFO, ''Suscribing to ACC...'')],
     running = None\<rparr>)"
proof (cases again)
  case True
  show ?thesis unfolding True by code_simp
next
  case False
  show ?thesis unfolding False by code_simp
qed
text \<open>
  Claim C4, on the code. The chunk holds a data line and the line
  \<^verbatim>\<open>R connection lost to device 9ff167\<close>. The client records the loss with
  \<^verbatim>\<open>logging.exception\<close> and goes on: \<^verbatim>\<open>get_data\<close> returns the sample of the chunk.
\<close>

theorem get_data_lost_connection_returns_samples:
  "get_data float_decimal
     (client ''9ff167'' [''bvp''] Connected
        [Data (''E4_Bvp 123.0 5.5'' @ [LF] @ ''R connection lost to device 9ff167'' @ [LF])]) =
   (Inr [(''E4_Bvp'', 123, Scalar (11 / 2))],
    \<lparr>device_id = ''9ff167'', subscriptions = [''bvp''], logger = True, sock = Connected,
     incoming = [], trace = [],
     logs = [(ERROR, ''Lost connection to device 9ff167.'')],
     running = None\<rparr>)"
  by code_simp

section \<open>Polling for the tag\<close>

lemma scan_for_tag_none:
  "\<not> list_ex (sublist ''E4_Tag'') ls \<Longrightarrow> scan_for_tag flt ls = Inr None"
  by (induction ls) auto

lemma scan_for_tag_first:
  "\<not> list_ex (sublist ''E4_Tag'') ls \<Longrightarrow> sublist ''E4_Tag'' p \<Longrightarrow>
   scan_for_tag flt (ls @ p # ls') =
     and_then (float_token flt (split_ws p) 1) (\<lambda>v. Inr (Some v))"
  by (induction ls) auto

lemma poll_loop_timeout:
  assumes "sock s = Connected" and "incoming s = TimedOut # es"
  shows "poll_loop flt s =
         poll_loop flt (s\<lparr>incoming := es,
           logs := logs s @ [(INFO, ''Timed out waiting for tag. Resuming polling...'')]\<rparr>)"
  using assms
  by (subst poll_loop.simps) (simp add: receive_def sock_recv_def log_info_def)

lemma poll_loop_no_tag:
  assumes "sock s = Connected" and "incoming s = Data chunk # es"
    and "\<not> list_ex (sublist ''E4_Tag'') (split_response chunk)"
  shows "poll_loop flt s = poll_loop flt (s\<lparr>incoming := es\<rparr>)"
  using assms
  by (subst poll_loop.simps) (simp add: receive_def sock_recv_def scan_for_tag_none)

lemma poll_loop_skip:
  "sock s = Connected \<Longrightarrow> incoming s = pre @ rest \<Longrightarrow> \<forall>e\<in>set pre. no_tag e \<Longrightarrow>
   \<exists>s'. poll_loop flt s = poll_loop flt s' \<and> sock s' = Connected \<and> incoming s' = rest"
proof (induction pre arbitrary: s)
  case Nil
  then show ?case by auto
next
  case (Cons e es)
  show ?case
  proof (cases e)
    case TimedOut
    let ?s1 = "s\<lparr>incoming := es @ rest,
      logs := logs s @ [(INFO, ''Timed out waiting for tag. Resuming polling...'')]\<rparr>"
    have step: "poll_loop flt s = poll_loop flt ?s1"
      using Cons.prems(1,2) TimedOut by (simp add: poll_loop_timeout)
    have "\<exists>s'. poll_loop flt ?s1 = poll_loop flt s' \<and> sock s' = Connected \<and>
               incoming s' = rest"
      using Cons.prems by (intro Cons.IH) auto
    with step show ?thesis by auto
  next
    case (Data chunk)
    let ?s1 = "s\<lparr>incoming := es @ rest\<rparr>"
    have "\<not> list_ex (sublist ''E4_Tag'') (split_response chunk)"
      using Cons.prems(3) Data by simp
    then have step: "poll_loop flt s = poll_loop flt ?s1"
      using Cons.prems(1,2) Data by (simp add: poll_loop_no_tag)
    have "\<exists>s'. poll_loop flt ?s1 = poll_loop flt s' \<and> sock s' = Connected \<and>
               incoming s' = rest"
      using Cons.prems by (intro Cons.IH) auto
    with step show ?thesis by auto
  qed
qed

text \<open>
  Claim C8, as the code has it. The poll reads chunk after chunk. Timeouts and chunks none
  of whose lines contains the text \<^verbatim>\<open>E4_Tag\<close> are passed over; in the first chunk that has
  such a line, the first such line decides: the poll returns its second token read as a
  number (commas read as periods). Lines are matched by the text they contain, not by
  their stream code.
\<close>

theorem poll_for_tag_first_tag_line:
  assumes "sock s = Connected"
    and "incoming s = pre @ Data chunk # rest"
    and "\<forall>e\<in>set pre. no_tag e"
    and "split_response chunk = ls @ p # ls'"
    and "\<not> list_ex (sublist ''E4_Tag'') ls"
    and "sublist ''E4_Tag'' p"
    and "split_ws p = t0 # t1 # ts"
    and "flt (replace_comma t1) = Some v"
  shows "\<exists>s'. poll_for_tag flt s = Some (Inr v, s') \<and> incoming s' = rest"
proof -
  let ?s0 = "snd (log_info ''Polling for tag...'' s)"
  have c0: "sock ?s0 = Connected" and i0: "incoming ?s0 = pre @ Data chunk # rest"
    using assms(1,2) by (simp_all add: log_info_def)
  from poll_loop_skip [OF c0 i0 assms(3), of flt]
  obtain s1 where s1: "poll_loop flt ?s0 = poll_loop flt s1"
    and c1: "sock s1 = Connected" and i1: "incoming s1 = Data chunk # rest"
    by blast
  have scan: "scan_for_tag flt (split_response chunk) = Inr (Some v)"
    using scan_for_tag_first [OF assms(5,6), of flt ls'] assms(4,7,8)
    by (simp add: float_token_def index_def to_float_def)
  have "poll_loop flt s1 = Some (Inr v, s1\<lparr>incoming := rest\<rparr>)"
    using c1 i1 scan
    by (subst poll_loop.simps) (simp add: receive_def sock_recv_def)
  with s1 show ?thesis by (simp add: poll_for_tag_def)
qed

theorem poll_for_tag_first_tag_line_witness:
  "map_option fst
     (poll_for_tag float_decimal
        (client ''9ff167'' [''bvp'', ''tag''] Connected
           [TimedOut, Data (''E4_Bvp 1,0 2,0'' @ [LF]),
            Data (''E4_Bvp 1,1 2'' @ [LF] @ ''E4_Tag 12,50'' @ [LF])])) =
   Some (Inr (25 / 2))"
proof -
  let ?chunk = "''E4_Bvp 1,1 2'' @ [LF] @ ''E4_Tag 12,50'' @ [LF]"
  let ?pre = "[TimedOut, Data (''E4_Bvp 1,0 2,0'' @ [LF])]"
  let ?s = "client ''9ff167'' [''bvp'', ''tag''] Connected
              [TimedOut, Data (''E4_Bvp 1,0 2,0'' @ [LF]), Data ?chunk]"
  have h1: "sock ?s = Connected" by (simp add: client_def)
  have h2: "incoming ?s = ?pre @ Data ?chunk # []" by (simp add: client_def)
  have h3: "\<forall>e\<in>set ?pre. no_tag e" by code_simp
  have h4: "split_response ?chunk = [''E4_Bvp 1,1 2''] @ ''E4_Tag 12,50'' # [[]]"
    by code_simp
  have h5: "\<not> list_ex (sublist ''E4_Tag'') [''E4_Bvp 1,1 2'']" by code_simp
  have h6: "sublist ''E4_Tag'' ''E4_Tag 12,50''" by code_simp
  have h7: "split_ws ''E4_Tag 12,50'' = ''E4_Tag'' # ''12,50'' # []" by code_simp
  have h8: "float_decimal (replace_comma ''12,50'') = Some (25 / 2)" by code_simp
  from poll_for_tag_first_tag_line
    [where pre = ?pre and ls = "[''E4_Bvp 1,1 2'']" and p = "''E4_Tag 12,50''"
       and flt = float_decimal and ?t1.0 = "''12,50''" and v = "25 / 2",
      OF h1 h2 h3 h4 h5 h6 h7 h8]
  obtain s' where "poll_for_tag float_decimal ?s = Some (Inr (25 / 2), s')" by blast
  then show ?thesis by simp
qed

text \<open>
  Claim C8, as it is stated, fails: a sample of another stream whose line contains the
  text \<^verbatim>\<open>E4_Tag\<close> is taken for the tag, and its timestamp is returned, not the one of the
  sample with the tag stream code that follows it.
\<close>

theorem poll_for_tag_stream_code_counterexample:
  "parse_packet float_decimal ''E4_Tag2 1,0 2,0'' = Inr (''E4_Tag2'', 1, Scalar 2) \<and>
   parse_packet float_decimal ''E4_Tag 12,50 0'' = Inr (''E4_Tag'', 25 / 2, Scalar 0) \<and>
   map_option fst
     (poll_for_tag float_decimal
        (client ''9ff167'' [''tag''] Connected
           [Data (''E4_Tag2 1,0 2,0'' @ [LF] @ ''E4_Tag 12,50 0'' @ [LF])])) =
   Some (Inr 1)"
  by code_simp

section \<open>Resetting and reconnecting\<close>

lemma then_do_raised: "fst (m s) = Inl e \<Longrightarrow> then_do m f s = (Inl e, snd (m s))"
  by (cases "m s") (auto simp: then_do_def)

lemma then_do_returned: "fst (m s) = Inr x \<Longrightarrow> then_do m f s = f x (snd (m s))"
  by (cases "m s") (auto simp: then_do_def)

subsection \<open>No method but \<^verbatim>\<open>disconnect\<close> sends the disconnect command\<close>

lemma adds_trans:
  assumes "adds s r" and "adds (snd r) r'"
  shows "adds s r'"
proof -
  from assms(1) obtain a1 where a1: "trace (snd r) = trace s @ a1"
    "Send SEND_DISCONNECT \<notin> set a1"
    by (auto simp: adds_def)
  from assms(2) obtain a2 where a2: "trace (snd r') = trace (snd r) @ a2"
    "Send SEND_DISCONNECT \<notin> set a2"
    by (auto simp: adds_def)
  from a1 a2 have "trace (snd r') = trace s @ (a1 @ a2) \<and> Send SEND_DISCONNECT \<notin> set (a1 @ a2)"
    by simp
  then have "\<exists>acts. trace (snd r') = trace s @ acts \<and> Send SEND_DISCONNECT \<notin> set acts"
    by blast
  with assms show ?thesis by (simp add: adds_def)
qed

lemma adds_then:
  assumes "\<And>t. adds t (m t)" and "\<And>x t. adds t (f x t)"
  shows "adds s (then_do m f s)"
proof (cases "fst (m s)")
  case (Inl e)
  then have "then_do m f s = (Inl e, snd (m s))" by (rule then_do_raised)
  with assms(1) [of s] show ?thesis by (simp add: adds_def)
next
  case (Inr x)
  then have "then_do m f s = f x (snd (m s))" by (rule then_do_returned)
  with adds_trans [OF assms(1) [of s] assms(2) [of "snd (m s)" x]] show ?thesis by simp
qed

lemma adds_if: "adds s (a s) \<Longrightarrow> adds s (b s) \<Longrightarrow> adds s ((if c then a else b) s)"
  by simp

lemma adds_basic:
  "adds s (log_info m s)" "adds s (log_exception m s)" "adds s (ok x s)"
  "adds s (lift r s)" "adds s (logger_info m s)" "adds s (sock_recv s)"
  "adds s (sock_connect again s)" "adds s (sock_shutdown s)" "adds s (sock_close s)"
  "adds s (new_socket s)"
  by (simp_all add: adds_def log_info_def log_exception_def ok_def lift_def logger_info_def
      sock_recv_def sock_connect_def sock_shutdown_def sock_close_def new_socket_def
      split: list.splits event.splits sock_state.splits)

lemma adds_send: "d \<noteq> SEND_DISCONNECT \<Longrightarrow> adds s (sock_send d s)"
  by (simp add: adds_def sock_send_def)

lemma commands_differ:
  "COMMAND_LIST \<noteq> SEND_DISCONNECT" "COMMAND_DEV_CONNECT d \<noteq> SEND_DISCONNECT"
  "COMMAND_PAUSE \<noteq> SEND_DISCONNECT" "SEND_SUBSCRIBE_L c \<noteq> SEND_DISCONNECT"
  by (simp_all add: COMMAND_LIST_def COMMAND_DEV_CONNECT_def COMMAND_PAUSE_def
      SEND_SUBSCRIBE_L_def SEND_DISCONNECT_def)

lemma connect_device_adds: "adds s (connect_device s)"
  unfolding connect_device_def
  by (intro adds_then adds_if adds_basic adds_send commands_differ)

lemma pause_stream_adds: "adds s (pause_stream s)"
  unfolding pause_stream_def
  by (intro adds_then adds_if adds_basic adds_send commands_differ)

lemma subscribe_adds: "adds s (subscribe c s)"
  unfolding subscribe_def
  by (intro adds_then adds_if adds_basic adds_send commands_differ)

lemma subscribe_each_adds: "adds s (subscribe_each subs s)"
proof (induction subs arbitrary: s)
  case Nil
  show ?case by (simp add: adds_basic)
next
  case (Cons c subs)
  show ?case unfolding subscribe_each.simps
    by (intro adds_then subscribe_adds Cons.IH)
qed

lemma connect_adds: "adds s (connect again s)"
  unfolding connect_def
  by (intro adds_then adds_basic connect_device_adds pause_stream_adds subscribe_each_adds)

subsection \<open>The calls of \<^verbatim>\<open>reset\<close> when the server answers\<close>

lemma stepped_then:
  assumes "stepped s st1 es1 a1 (m s)"
    and "stepped (snd (m s)) st2 es2 a2 (f () (snd (m s)))"
  shows "stepped s st2 es2 (a1 @ a2) (then_do m f s)"
proof -
  from assms(1) have "fst (m s) = Inr ()"
    by (simp add: stepped_def)
  then have "then_do m f s = f () (snd (m s))"
    by (rule then_do_returned)
  with assms show ?thesis by (simp add: stepped_def)
qed

lemma logger_info_stepped: "stepped s (sock s) (incoming s) [] (logger_info m s)"
  by (simp add: stepped_def logger_info_def log_info_def ok_def)

lemma connect_device_stepped:
  assumes "sock s = Connected" and "incoming s = Data r1 # Data r2 # es"
  shows "stepped s Connected es
           [Send COMMAND_LIST, Send (COMMAND_DEV_CONNECT (device_id s))] (connect_device s)"
  using assms
  by (simp add: stepped_def connect_device_def then_do_def log_info_def log_exception_def
      ok_def sock_send_def sock_recv_def)

lemma pause_stream_stepped:
  assumes "sock s = Connected" and "incoming s = Data r # es"
  shows "stepped s Connected es [Send COMMAND_PAUSE] (pause_stream s)"
  using assms
  by (simp add: stepped_def pause_stream_def then_do_def log_info_def log_exception_def
      ok_def sock_send_def sock_recv_def)

lemma sock_connect_stepped:
  assumes "sock s = Fresh"
  shows "stepped s Connected (incoming s) [Connect] (sock_connect again s)"
  using assms by (simp add: stepped_def sock_connect_def)

text \<open>
  \<^verbatim>\<open>connect\<close> up to the pause, on a fresh socket in front of a server that answers the
  three commands; the subscriptions follow.
\<close>

lemma connect_head:
  assumes fresh: "sock s = Fresh"
    and inc: "incoming s = Data r1 # Data r2 # Data r3 # rest"
  shows "\<exists>t. stepped s Connected rest
                [Connect, Send COMMAND_LIST, Send (COMMAND_DEV_CONNECT (device_id s)),
                 Send COMMAND_PAUSE] (Inr (), t) \<and>
             connect again s = subscribe_each (subscriptions s) t"
proof -
  let ?m4 = "pause_stream"
  let ?m3 = "then_do (logger_info ''Connected.'') (\<lambda>_. ?m4)"
  let ?m2 = "then_do connect_device (\<lambda>_. ?m3)"
  let ?m1 = "then_do (sock_connect again) (\<lambda>_. ?m2)"
  let ?m0 = "then_do (logger_info ''Connecting to server...'') (\<lambda>_. ?m1)"
  have m3: "stepped t Connected rest ([] @ [Send COMMAND_PAUSE]) (?m3 t)"
    if "sock t = Connected" and "incoming t = Data r3 # rest" for t
  proof (rule stepped_then)
    show p: "stepped t (sock t) (incoming t) [] (logger_info ''Connected.'' t)"
      by (rule logger_info_stepped)
    show "stepped (snd (logger_info ''Connected.'' t)) Connected rest [Send COMMAND_PAUSE]
            (?m4 (snd (logger_info ''Connected.'' t)))"
      using p that by (intro pause_stream_stepped) (simp_all add: stepped_def)
  qed
  have m2: "stepped t Connected rest
      ([Send COMMAND_LIST, Send (COMMAND_DEV_CONNECT (device_id t))] @
       [] @ [Send COMMAND_PAUSE]) (?m2 t)"
    if "sock t = Connected" and "incoming t = Data r1 # Data r2 # Data r3 # rest" for t
  proof (rule stepped_then)
    show p: "stepped t Connected (Data r3 # rest)
               [Send COMMAND_LIST, Send (COMMAND_DEV_CONNECT (device_id t))]
               (connect_device t)"
      using that by (rule connect_device_stepped)
    show "stepped (snd (connect_device t)) Connected rest ([] @ [Send COMMAND_PAUSE])
            (?m3 (snd (connect_device t)))"
      using p by (intro m3) (simp_all add: stepped_def)
  qed
  have m1: "stepped t Connected rest
      ([Connect] @ [Send COMMAND_LIST, Send (COMMAND_DEV_CONNECT (device_id t))] @
       [] @ [Send COMMAND_PAUSE]) (?m1 t)"
    if "sock t = Fresh" and "incoming t = Data r1 # Data r2 # Data r3 # rest" for t
  proof (rule stepped_then)
    show p: "stepped t Connected (incoming t) [Connect] (sock_connect again t)"
      using that(1) by (rule sock_connect_stepped)
    have d: "device_id (snd (sock_connect again t)) = device_id t"
      using p by (simp add: stepped_def)
    show "stepped (snd (sock_connect again t)) Connected rest
            ([Send COMMAND_LIST, Send (COMMAND_DEV_CONNECT (device_id t))] @
             [] @ [Send COMMAND_PAUSE])
            (?m2 (snd (sock_connect again t)))"
      using p that(2) m2 [of "snd (sock_connect again t)"] by (simp add: stepped_def d)
  qed
  have m0: "stepped s Connected rest
      ([] @ [Connect] @ [Send COMMAND_LIST, Send (COMMAND_DEV_CONNECT (device_id s))] @
       [] @ [Send COMMAND_PAUSE]) (?m0 s)"
  proof (rule stepped_then)
    show p: "stepped s (sock s) (incoming s) [] (logger_info ''Connecting to server...'' s)"
      by (rule logger_info_stepped)
    let ?t = "snd (logger_info ''Connecting to server...'' s)"
    have d: "device_id ?t = device_id s" using p by (simp add: stepped_def)
    show "stepped ?t Connected rest
            ([Connect] @ [Send COMMAND_LIST, Send (COMMAND_DEV_CONNECT (device_id s))] @
             [] @ [Send COMMAND_PAUSE]) (?m1 ?t)"
      using p fresh inc m1 [of ?t] by (simp add: stepped_def d)
  qed
  have split: "connect again s = then_do ?m0 (\<lambda>_. subscribe_each (subscriptions s)) s"
    by (simp add: connect_def then_do_def split: prod.splits sum.splits)
  from m0 have ret: "fst (?m0 s) = Inr ()" by (simp add: stepped_def)
  have "connect again s = subscribe_each (subscriptions s) (snd (?m0 s))"
    unfolding split using ret by (rule then_do_returned)
  moreover from m0 ret have "stepped s Connected rest
                [Connect, Send COMMAND_LIST, Send (COMMAND_DEV_CONNECT (device_id s)),
                 Send COMMAND_PAUSE] (Inr (), snd (?m0 s))"
    by (simp add: stepped_def)
  ultimately show ?thesis by blast
qed

lemma reset_head:
  assumes conn: "sock s = Connected"
    and inc: "incoming s = Data r1 # Data r2 # Data r3 # rest"
  shows "\<exists>t. stepped s Connected rest
                [Shutdown, Close, NewSocket, Connect, Send COMMAND_LIST,
                 Send (COMMAND_DEV_CONNECT (device_id s)), Send COMMAND_PAUSE] (Inr (), t) \<and>
             reset again s = subscribe_each (subscriptions s) t"
proof -
  let ?m = "then_do (logger_info ''Resetting socket'') (\<lambda>_.
              then_do sock_shutdown (\<lambda>_. then_do sock_close (\<lambda>_. new_socket)))"
  have pre: "stepped s Fresh (incoming s) [Shutdown, Close, NewSocket] (?m s)"
    using conn
    by (simp add: stepped_def then_do_def logger_info_def log_info_def ok_def
        sock_shutdown_def sock_close_def new_socket_def)
  have split: "reset again s = then_do ?m (\<lambda>_. connect again) s"
    by (simp add: reset_def then_do_def split: prod.splits sum.splits)
  from pre have ret: "fst (?m s) = Inr ()" by (simp add: stepped_def)
  have re: "reset again s = connect again (snd (?m s))"
    unfolding split using ret by (rule then_do_returned)
  let ?s1 = "snd (?m s)"
  from pre inc have f1: "sock ?s1 = Fresh"
    and i1: "incoming ?s1 = Data r1 # Data r2 # Data r3 # rest"
    by (simp_all add: stepped_def)
  from connect_head [OF f1 i1, of again]
  obtain t where t: "stepped ?s1 Connected rest
                [Connect, Send COMMAND_LIST, Send (COMMAND_DEV_CONNECT (device_id ?s1)),
                 Send COMMAND_PAUSE] (Inr (), t)"
    and c: "connect again ?s1 = subscribe_each (subscriptions ?s1) t"
    by blast
  from pre t have "stepped s Connected rest
                [Shutdown, Close, NewSocket, Connect, Send COMMAND_LIST,
                 Send (COMMAND_DEV_CONNECT (device_id s)), Send COMMAND_PAUSE] (Inr (), t)"
    by (simp add: stepped_def)
  moreover from pre c re have "reset again s = subscribe_each (subscriptions s) t"
    by (simp add: stepped_def)
  ultimately show ?thesis by blast
qed

lemma reset_not_connected:
  assumes "sock s \<noteq> Connected"
  shows "fst (reset again s) = Inl OSError \<and> trace (snd (reset again s)) = trace s"
  using assms
  by (simp add: reset_def then_do_def logger_info_def log_info_def ok_def sock_shutdown_def)

text \<open>
  Claim C9, as the code has it. \<^verbatim>\<open>reconnect\<close> begins with \<^verbatim>\<open>reset\<close>: on a connected
  socket it shuts the socket down and closes it, opens a new socket and starts
  \<^verbatim>\<open>connect\<close> with the same device id, so that, when the server answers the three
  commands, the record of calls goes on with the calls listed here; whatever follows, the
  disconnect command is not among the calls, and the client keeps its device id and its
  subscriptions. A shutdown that fails (the socket is not connected) is not suppressed:
  \<^verbatim>\<open>reconnect\<close> ends with that error, and it has made no socket call.
\<close>

theorem reconnect_resets_then_connects:
  "(sock s = Connected \<and> incoming s = Data r1 # Data r2 # Data r3 # rest \<longrightarrow>
      (\<exists>acts. trace (snd (reconnect again s)) =
                trace s @
                [Shutdown, Close, NewSocket, Connect, Send COMMAND_LIST,
                 Send (COMMAND_DEV_CONNECT (device_id s)), Send COMMAND_PAUSE] @ acts \<and>
              Send SEND_DISCONNECT \<notin> set acts) \<and>
      device_id (snd (reconnect again s)) = device_id s \<and>
      subscriptions (snd (reconnect again s)) = subscriptions s) \<and>
   (sock s \<noteq> Connected \<longrightarrow>
      fst (reconnect again s) = Inl OSError \<and> trace (snd (reconnect again s)) = trace s)"
proof (intro conjI impI)
  assume h: "sock s = Connected \<and> incoming s = Data r1 # Data r2 # Data r3 # rest"
  let ?head = "[Shutdown, Close, NewSocket, Connect, Send COMMAND_LIST,
                 Send (COMMAND_DEV_CONNECT (device_id s)), Send COMMAND_PAUSE]"
  from h reset_head [of s r1 r2 r3 rest again]
  obtain t where t: "stepped s Connected rest ?head (Inr (), t)"
    and r: "reset again s = subscribe_each (subscriptions s) t"
    by blast
  have a1: "adds t (reset again s)"
    unfolding r by (rule subscribe_each_adds)
  have a2: "adds t (reconnect again s)"
  proof (cases "fst (reset again s)")
    case (Inl e)
    then have "reconnect again s = (Inl e, snd (reset again s))"
      unfolding reconnect_def by (rule then_do_raised)
    with a1 show ?thesis by (simp add: adds_def)
  next
    case (Inr x)
    then have "reconnect again s = connect again (snd (reset again s))"
      unfolding reconnect_def by (rule then_do_returned)
    with adds_trans [OF a1 connect_adds [of "snd (reset again s)" again]]
    show ?thesis by simp
  qed
  from a2 obtain acts where acts: "trace (snd (reconnect again s)) = trace t @ acts"
    "Send SEND_DISCONNECT \<notin> set acts"
    by (auto simp: adds_def)
  from t acts have "trace (snd (reconnect again s)) = trace s @ ?head @ acts \<and>
      Send SEND_DISCONNECT \<notin> set acts"
    by (simp add: stepped_def)
  then show "\<exists>acts. trace (snd (reconnect again s)) = trace s @ ?head @ acts \<and>
              Send SEND_DISCONNECT \<notin> set acts"
    by blast
  from a2 t show "device_id (snd (reconnect again s)) = device_id s"
    by (simp add: adds_def stepped_def)
  from a2 t show "subscriptions (snd (reconnect again s)) = subscriptions s"
    by (simp add: adds_def stepped_def)
next
  assume h: "sock s \<noteq> Connected"
  have "reconnect again s = (Inl OSError, snd (reset again s))"
    unfolding reconnect_def
    using reset_not_connected [OF h] by (intro then_do_raised) simp
  with reset_not_connected [OF h, of again]
  show "fst (reconnect again s) = Inl OSError" and "trace (snd (reconnect again s)) = trace s"
    by simp_all
qed

theorem reconnect_resets_then_connects_witness:
  "prefix [Shutdown, Close, NewSocket, Connect, Send (''device_list'' @ [CR, LF]),
           Send (''device_connect Device123'' @ [CR, LF]), Send (''pause ON'' @ [CR, LF])]
     (trace (snd (reconnect True
        (client ''Device123'' [''ACC''] Connected
           [Data (''R device_list 1 | Device123 Empatica_E4'' @ [LF]), Data DEV_ACK_OK,
            Data PAUSE_ON_ACK, Data (RECV_SUB_OK_L ''ACC'')])))) \<and>
   fst (reconnect True (client ''Device123'' [''ACC''] Fresh [])) = Inl OSError"
proof -
  let ?s = "client ''Device123'' [''ACC''] Connected
           [Data (''R device_list 1 | Device123 Empatica_E4'' @ [LF]), Data DEV_ACK_OK,
            Data PAUSE_ON_ACK, Data (RECV_SUB_OK_L ''ACC'')]"
  have h: "sock ?s = Connected \<and>
           incoming ?s = Data (''R device_list 1 | Device123 Empatica_E4'' @ [LF]) #
             Data DEV_ACK_OK # Data PAUSE_ON_ACK # [Data (RECV_SUB_OK_L ''ACC'')]"
    by (simp add: client_def)
  have a: "trace ?s @
              [Shutdown, Close, NewSocket, Connect, Send COMMAND_LIST,
               Send (COMMAND_DEV_CONNECT (device_id ?s)), Send COMMAND_PAUSE] =
           [Shutdown, Close, NewSocket, Connect, Send (''device_list'' @ [CR, LF]),
           Send (''device_connect Device123'' @ [CR, LF]), Send (''pause ON'' @ [CR, LF])]"
    by (simp add: client_def COMMAND_LIST_def COMMAND_DEV_CONNECT_def COMMAND_PAUSE_def)
  have n: "sock (client ''Device123'' [''ACC''] Fresh []) \<noteq> Connected"
    by (simp add: client_def)
  from reconnect_resets_then_connects
    [of ?s "''R device_list 1 | Device123 Empatica_E4'' @ [LF]" DEV_ACK_OK PAUSE_ON_ACK
      "[Data (RECV_SUB_OK_L ''ACC'')]" True] h
  obtain acts where "trace (snd (reconnect True ?s)) =
      (trace ?s @
              [Shutdown, Close, NewSocket, Connect, Send COMMAND_LIST,
               Send (COMMAND_DEV_CONNECT (device_id ?s)), Send COMMAND_PAUSE]) @ acts"
    by auto
  then have p: "prefix [Shutdown, Close, NewSocket, Connect, Send (''device_list'' @ [CR, LF]),
           Send (''device_connect Device123'' @ [CR, LF]), Send (''pause ON'' @ [CR, LF])]
     (trace (snd (reconnect True ?s)))"
    unfolding a by (simp add: prefix_def)
  from reconnect_resets_then_connects
    [of "client ''Device123'' [''ACC''] Fresh []" _ _ _ _ True] n
  have "fst (reconnect True (client ''Device123'' [''ACC''] Fresh [])) = Inl OSError"
    by simp
  with p show ?thesis by simp
qed

text \<open>
  Claim C9, as it is stated, fails: the reconnection the specification describes sends the
  disconnect command first; the client's \<^verbatim>\<open>reconnect\<close> does not send it, whatever the
  platform does on the second \<^verbatim>\<open>connect\<close>.
\<close>

theorem reconnect_spec_counterexample:
  "Send SEND_DISCONNECT \<in> set (trace (snd (spec_reconnect False
     (client ''Device123'' [''ACC''] Connected
        [Data (''R device_list 1 | Device123 Empatica_E4'' @ [LF]), Data DEV_ACK_OK,
         Data PAUSE_ON_ACK, Data (RECV_SUB_OK_L ''ACC'')])))) \<and>
   Send SEND_DISCONNECT \<notin> set (trace (snd (reconnect False
     (client ''Device123'' [''ACC''] Connected
        [Data (''R device_list 1 | Device123 Empatica_E4'' @ [LF]), Data DEV_ACK_OK,
         Data PAUSE_ON_ACK, Data (RECV_SUB_OK_L ''ACC'')])))) \<and>
   Send SEND_DISCONNECT \<notin> set (trace (snd (reconnect True
     (client ''Device123'' [] Connected
        [Data (''R device_list 1 | Device123 Empatica_E4'' @ [LF]), Data DEV_ACK_OK,
         Data PAUSE_ON_ACK,
         Data (''R device_list 1 | Device123 Empatica_E4'' @ [LF]), Data DEV_ACK_OK,
         Data PAUSE_ON_ACK]))))"
  by code_simp

end
